theory Spec2Isabelle
  imports Complex_Main
begin

section \<open>The campaign scheduler of \<open>backend/auto_sender.py\<close>\<close>

subsection \<open>Data model\<close>

text \<open>
  The dictionary written by \<open>_persist_task_state\<close> and read back by
  \<open>load_task_state\<close> and \<open>resume_sending_task\<close>. Values that may be Python's
  \<open>None\<close> are options; timestamps are ISO strings.
\<close>

record persisted =
  is_running :: bool
  is_paused :: bool
  shop_id :: "int option"
  channel_id :: "string option"
  account_ids :: "int list"
  interval :: "int option"
  total_products :: int
  sent_count :: int
  next_product_index :: int
  next_account_index :: int
  current_product :: "string option"
  current_account :: "string option"
  started_at :: "string option"
  last_sent_at :: "string option"

text \<open>
  The module-level dictionary \<open>task_status\<close>: the persisted keys and \<open>error\<close>,
  which is never written to the store.
\<close>

record task_status = persisted +
  error :: "string option"

text \<open>A row of the \<open>products\<close> table as the loop selects it; SQL NULL is \<open>None\<close>.\<close>

record product =
  shop_name :: string
  product_url :: "string option"
  title :: "string option"
  cnfans_url :: "string option"
  item_id :: "string option"

text \<open>
  Modelled from the spec: the persistence interface (\<open>load\<close>, \<open>save\<close>, \<open>clear\<close> of the
  campaign state, and the item source) lives in \<open>database.py\<close>, which is not part of
  the sources at hand. The store holds at most one campaign record; \<open>save\<close> overwrites
  it, \<open>clear\<close> removes it, \<open>load\<close> returns it. Shops map an id to a name and the
  products of a shop are the rows carrying that name, in table order.
\<close>

record database =
  sender_task_state :: "persisted option"
  shops :: "(int \<times> string) list"
  products :: "product list"

definition get_sender_task_state :: "database \<Rightarrow> persisted option" where
  "get_sender_task_state d = sender_task_state d"

definition save_sender_task_state :: "database \<Rightarrow> persisted \<Rightarrow> database" where
  "save_sender_task_state d st = d\<lparr>sender_task_state := Some st\<rparr>"

definition clear_sender_task_state :: "database \<Rightarrow> database" where
  "clear_sender_task_state d = d\<lparr>sender_task_state := None\<rparr>"

definition get_shop_by_id :: "database \<Rightarrow> int \<Rightarrow> string option" where
  "get_shop_by_id d sid = map_of (shops d) sid"

definition select_products :: "database \<Rightarrow> string \<Rightarrow> product list" where
  "select_products d nm = filter (\<lambda>p. shop_name p = nm) (products d)"

text \<open>
  A connected account (\<open>DiscordBotClient\<close>) as the scheduler sees it: the account id
  (\<open>None\<close> when the attribute is missing or unset), the two connectivity flags and the
  printed user.
\<close>

record bot_client =
  account_id :: "int option"
  is_ready :: bool
  is_closed :: bool
  user :: "string option"

text \<open>What one pass through the \<open>try\<close> block around \<open>channel.send\<close> ends in.\<close>

datatype send_result =
    Sent
  | Channel_not_found
  | Send_failed string
  | Send_cancelled

text \<open>
  What the scheduler does to the outside: writes and clears of the store, and send
  attempts, each with the two loop cursors, the account chosen, the message and the
  outcome.
\<close>

datatype effect =
    Saved persisted
  | Cleared
  | Attempt int int bot_client string send_result

text \<open>The arguments of one \<open>auto_send_loop\<close> coroutine handed to the bot's event loop.\<close>

record loop_args =
  la_shop_id :: int
  la_channel_id :: string
  la_account_ids :: "int list"
  la_interval :: int
  la_start_product_index :: int
  la_start_account_index :: int

text \<open>
  The module's globals together with the database object the functions receive by
  reference: \<open>task_status\<close>, \<open>stop_sender_event\<close>, \<open>stop_sender_reason\<close>, the store,
  the coroutines submitted to the event loop and the trace of effects.
\<close>

record world =
  status :: task_status
  stop_sender_event :: bool
  stop_sender_reason :: "string option"
  db :: database
  submitted :: "loop_args list"
  effects :: "effect list"

text \<open>The answers of the control functions; each failure stands for one error text.\<close>

datatype failure =
    Already_active
  | No_running_task
  | Nothing_to_resume
  | Task_is_running
  | No_account_online
  | Submit_failed string

datatype reply = Success | Failure failure

subsection \<open>Status and persistence\<close>

definition initial_status :: task_status where
  "initial_status =
     \<lparr>is_running = False, is_paused = False, shop_id = None, channel_id = None,
      account_ids = [], interval = None, total_products = 0, sent_count = 0,
      next_product_index = 0, next_account_index = 0, current_product = None,
      current_account = None, started_at = None, last_sent_at = None, error = None\<rparr>"

definition reset_task_status :: "world \<Rightarrow> world" where
  "reset_task_status w = w\<lparr>status := initial_status\<rparr>"

definition snapshot :: "task_status \<Rightarrow> persisted" where
  "snapshot ts =
     \<lparr>is_running = is_running ts, is_paused = is_paused ts, shop_id = shop_id ts,
      channel_id = channel_id ts, account_ids = account_ids ts, interval = interval ts,
      total_products = total_products ts, sent_count = sent_count ts,
      next_product_index = next_product_index ts,
      next_account_index = next_account_index ts,
      current_product = current_product ts, current_account = current_account ts,
      started_at = started_at ts, last_sent_at = last_sent_at ts\<rparr>"

definition persist_task_state :: "world \<Rightarrow> world" where
  "persist_task_state w =
     w\<lparr>db := save_sender_task_state (db w) (snapshot (status w)),
       effects := effects w @ [Saved (snapshot (status w))]\<rparr>"

definition clear_task_state :: "world \<Rightarrow> world" where
  "clear_task_state w =
     w\<lparr>db := clear_sender_task_state (db w), effects := effects w @ [Cleared]\<rparr>"

definition online :: "int list \<Rightarrow> bot_client \<Rightarrow> bool" where
  "online ids c =
     (case account_id c of
        None \<Rightarrow> False
      | Some a \<Rightarrow> a \<in> set ids \<and> is_ready c \<and> \<not> is_closed c)"

fun has_online_bots :: "bot_client list \<Rightarrow> int list \<Rightarrow> bool" where
  "has_online_bots cs [] = False"
| "has_online_bots [] ids = False"
| "has_online_bots (c # cs) ids = (if online ids c then True else has_online_bots cs ids)"

definition truthy_id :: "int option \<Rightarrow> bool" where
  "truthy_id x = (case x of None \<Rightarrow> False | Some n \<Rightarrow> n \<noteq> 0)"

definition truthy_str :: "string option \<Rightarrow> bool" where
  "truthy_str x = (case x of None \<Rightarrow> False | Some s \<Rightarrow> s \<noteq> [])"

definition load_task_state :: "world \<Rightarrow> world" where
  "load_task_state w =
     (case get_sender_task_state (db w) of
        None \<Rightarrow> w
      | Some st \<Rightarrow>
          if \<not> truthy_id (shop_id st) \<or> \<not> truthy_str (channel_id st) then w
          else
            let ts = initial_status
                  \<lparr>shop_id := shop_id st, channel_id := channel_id st,
                   account_ids := account_ids st, interval := interval st,
                   total_products := total_products st, sent_count := sent_count st,
                   current_product := current_product st,
                   current_account := current_account st,
                   started_at := started_at st, last_sent_at := last_sent_at st,
                   next_product_index := next_product_index st,
                   next_account_index := next_account_index st\<rparr>
            in if is_running st
               then persist_task_state
                      (w\<lparr>status := ts\<lparr>is_running := False, is_paused := True\<rparr>\<rparr>)
               else w\<lparr>status := ts\<lparr>is_paused := is_paused st\<rparr>\<rparr>)"

subsection \<open>Control surface\<close>

text \<open>
  \<open>asyncio.run_coroutine_threadsafe\<close> either takes the coroutine or raises; the event
  loop argument carries which.
\<close>

datatype bot_loop = Loop_accepts | Loop_raises string

definition start_sending_task ::
  "int \<Rightarrow> string \<Rightarrow> int list \<Rightarrow> int \<Rightarrow> bot_loop \<Rightarrow> int \<Rightarrow> int \<Rightarrow> bool \<Rightarrow> world
     \<Rightarrow> reply \<times> world" where
  "start_sending_task shop chan accs iv loop start_product_index start_account_index
       resume w =
     (if is_running (status w) \<or> (is_paused (status w) \<and> \<not> resume)
      then (Failure Already_active, w)
      else
        let w1 = reset_task_status
                   (w\<lparr>stop_sender_event := False, stop_sender_reason := None\<rparr>);
            ts = (status w1)
                   \<lparr>shop_id := Some shop, channel_id := Some chan, account_ids := accs,
                    interval := Some iv,
                    next_product_index := max 0 start_product_index,
                    next_account_index := max 0 start_account_index\<rparr>;
            ts' = (if resume then ts\<lparr>sent_count := max 0 start_product_index\<rparr> else ts);
            w2 = w1\<lparr>status := ts'\<rparr>
        in case loop of
             Loop_raises e \<Rightarrow> (Failure (Submit_failed e), w2)
           | Loop_accepts \<Rightarrow>
               (Success,
                w2\<lparr>submitted := submitted w2 @
                     [\<lparr>la_shop_id = shop, la_channel_id = chan, la_account_ids = accs,
                       la_interval = iv, la_start_product_index = start_product_index,
                       la_start_account_index = start_account_index\<rparr>]\<rparr>))"

text \<open>\<open>stop_sending_task\<close>; the flag says whether a database was passed.\<close>

definition stop_sending_task :: "bool \<Rightarrow> world \<Rightarrow> reply \<times> world" where
  "stop_sending_task with_db w =
     (if \<not> is_running (status w) \<and> \<not> is_paused (status w)
      then (Failure No_running_task, w)
      else
        let w1 = w\<lparr>stop_sender_reason := Some ''stop'', stop_sender_event := True,
                   status := (status w)\<lparr>is_paused := False\<rparr>\<rparr>
        in (Success, if with_db then clear_task_state w1 else w1))"

definition pause_sending_task :: "world \<Rightarrow> reply \<times> world" where
  "pause_sending_task w =
     (if \<not> is_running (status w) then (Failure No_running_task, w)
      else (Success, w\<lparr>stop_sender_reason := Some ''pause'', stop_sender_event := True\<rparr>))"

definition resume_sending_task :: "bot_client list \<Rightarrow> bot_loop \<Rightarrow> world \<Rightarrow> reply \<times> world" where
  "resume_sending_task bot_clients loop w =
     (case get_sender_task_state (db w) of
        None \<Rightarrow> (Failure Nothing_to_resume, w)
      | Some st \<Rightarrow>
          (case (shop_id st, channel_id st) of
             (Some shop, Some chan) \<Rightarrow>
               if shop = 0 \<or> chan = [] then (Failure Nothing_to_resume, w)
               else if is_running (status w) then (Failure Task_is_running, w)
               else if \<not> has_online_bots bot_clients (account_ids st)
               then (Failure No_account_online, w)
               else start_sending_task shop chan (account_ids st)
                      (case interval st of
                         None \<Rightarrow> 60
                       | Some i \<Rightarrow> if i = 0 then 60 else i)
                      loop (next_product_index st) (next_account_index st) True w
           | _ \<Rightarrow> (Failure Nothing_to_resume, w)))"

subsection \<open>Python's conversions between integers and strings\<close>

text \<open>
  \<open>int(s)\<close> and \<open>str(n)\<close> in base ten. \<open>int\<close> strips white space from both ends,
  takes an optional sign and then groups of digits separated by single underscores;
  anything else is a \<open>ValueError\<close>, written \<open>None\<close>. Strings are byte strings here,
  so the digits and the white space are the ASCII ones.
\<close>

definition is_space :: "char \<Rightarrow> bool" where
  "is_space c =
     (c \<in> set [CHR 0x09, CHR 0x0A, CHR 0x0B, CHR 0x0C, CHR 0x0D,
                CHR 0x1C, CHR 0x1D, CHR 0x1E, CHR 0x1F, CHR 0x20])"

definition strip :: "string \<Rightarrow> string" where
  "strip s = rev (dropWhile is_space (rev (dropWhile is_space s)))"

definition is_digit :: "char \<Rightarrow> bool" where
  "is_digit c = (c \<in> set ''0123456789'')"

definition digit_of :: "char \<Rightarrow> nat" where
  "digit_of c = of_char c - 48"

definition char_of_digit :: "nat \<Rightarrow> char" where
  "char_of_digit d = char_of (48 + d)"

fun digits_value :: "nat \<Rightarrow> string \<Rightarrow> nat" where
  "digits_value acc [] = acc"
| "digits_value acc (c # cs) = digits_value (10 * acc + digit_of c) cs"

text \<open>A digit, then any number of digits each preceded by at most one underscore.\<close>

fun digit_groups :: "string \<Rightarrow> bool" where
  "digit_groups [] = False"
| "digit_groups [c] = is_digit c"
| "digit_groups (c # d # r) =
     (is_digit c \<and> (if d = CHR ''_'' then digit_groups r else digit_groups (d # r)))"

definition parse_nat :: "string \<Rightarrow> nat option" where
  "parse_nat s = (if digit_groups s then Some (digits_value 0 (filter is_digit s)) else None)"

definition int_of_str :: "string \<Rightarrow> int option" where
  "int_of_str s =
     (case strip s of
        [] \<Rightarrow> None
      | c # r \<Rightarrow>
          if c = CHR ''-'' then map_option (\<lambda>n. - int n) (parse_nat r)
          else if c = CHR ''+'' then map_option int (parse_nat r)
          else map_option int (parse_nat (c # r)))"

function nat_digits :: "nat \<Rightarrow> string" where
  "nat_digits n =
     (if n < 10 then [char_of_digit n]
      else nat_digits (n div 10) @ [char_of_digit (n mod 10)])"
  by pat_completeness auto
termination
  by (relation "measure id") auto

declare nat_digits.simps [simp del]

definition str_of_int :: "int \<Rightarrow> string" where
  "str_of_int i = (if i < 0 then CHR ''-'' # nat_digits (nat (- i)) else nat_digits (nat i))"

text \<open>An id as the callers pass it: a number or its text.\<close>

datatype pyval = PInt int | PStr string

definition py_int :: "pyval \<Rightarrow> int option" where
  "py_int v = (case v of PInt n \<Rightarrow> Some n | PStr s \<Rightarrow> int_of_str s)"

definition py_str :: "pyval \<Rightarrow> string" where
  "py_str v = (case v of PInt n \<Rightarrow> str_of_int n | PStr s \<Rightarrow> s)"

text \<open>What an f-string prints for a value that may be \<open>None\<close>.\<close>

definition show_opt :: "string option \<Rightarrow> string" where
  "show_opt x = (case x of None \<Rightarrow> ''None'' | Some s \<Rightarrow> s)"

subsection \<open>The item id of a product\<close>

text \<open>
  \<open>re.search\<close> for one of the literal prefixes followed by \<open>(\d+)\<close>: the leftmost
  position where a prefix and at least one digit match, and the longest run of digits
  there.
\<close>

definition match_here :: "string list \<Rightarrow> string \<Rightarrow> string option" where
  "match_here pats s =
     (case filter (\<lambda>p. take (length p) s = p
                      \<and> takeWhile is_digit (drop (length p) s) \<noteq> []) pats of
        [] \<Rightarrow> None
      | p # _ \<Rightarrow> Some (takeWhile is_digit (drop (length p) s)))"

fun search_digits :: "string list \<Rightarrow> string \<Rightarrow> string option" where
  "search_digits pats [] = None"
| "search_digits pats (c # cs) =
     (case match_here pats (c # cs) of
        Some d \<Rightarrow> Some d
      | None \<Rightarrow> search_digits pats cs)"

definition first_truthy :: "string option list \<Rightarrow> string" where
  "first_truthy xs = (case filter truthy_str xs of Some s # _ \<Rightarrow> s | _ \<Rightarrow> [])"

definition extract_item_id :: "product \<Rightarrow> string" where
  "extract_item_id p =
     (if truthy_str (item_id p) then show_opt (item_id p)
      else
        let url = first_truthy [product_url p, cnfans_url p]
        in if url = [] then []
           else case search_digits [''itemID=''] url of
                  Some d \<Rightarrow> d
                | None \<Rightarrow>
                    (case search_digits [''?id='', ''&id=''] url of
                       Some d \<Rightarrow> d
                     | None \<Rightarrow> []))"

subsection \<open>The send loop\<close>

text \<open>
  Calls of the control surface come from another thread. They are taken to arrive
  once the coroutine has set \<open>is_running\<close> and written its first record, before it
  loads the shop (\<open>on_entry\<close>), and at three points of an iteration: before the
  \<open>while\<close> test, while the send is awaited and during the interval wait.
\<close>

datatype control = Ctl_stop bool | Ctl_pause

definition apply_control :: "control \<Rightarrow> world \<Rightarrow> world" where
  "apply_control c w =
     (case c of
        Ctl_stop with_db \<Rightarrow> snd (stop_sending_task with_db w)
      | Ctl_pause \<Rightarrow> snd (pause_sending_task w))"

definition apply_controls :: "control list \<Rightarrow> world \<Rightarrow> world" where
  "apply_controls cs w = fold apply_control cs w"

text \<open>
  What the surroundings decide in the iteration that handles one item: the control
  calls, how the send ends when it is reached, the clock at a success, and whether the
  task is cancelled during the wait.
\<close>

record iter_env =
  before_test :: "control list"
  during_send :: "control list"
  send_outcome :: send_result
  sent_at :: string
  during_wait :: "control list"
  wait_cancelled :: bool

record run_env =
  start_time :: string
  on_entry :: "control list"
  iters :: "nat \<Rightarrow> iter_env"

record loop_ctx =
  lc_products :: "product list"
  lc_active_bots :: "bot_client list"
  lc_channel :: string

datatype exit = Continue | Finished | Raised string | Cancelled

text \<open>
  The body of the \<open>while\<close> loop up to the increment of the two indices. The loop
  enters it only with \<open>0 \<le> product_idx < len(products)\<close> and a non-empty pool, so
  both list reads are in range. A product without an item id and with a NULL title
  raises at \<open>title[:50]\<close>, outside the inner \<open>try\<close>; a channel id that \<open>int\<close>
  rejects, a missing channel and a failing send are the three failures the inner
  \<open>try\<close> absorbs.
\<close>

definition send_one :: "loop_ctx \<Rightarrow> iter_env \<Rightarrow> int \<Rightarrow> int \<Rightarrow> world \<Rightarrow> exit \<times> world" where
  "send_one cx ie product_idx bot_idx w =
     (let p = lc_products cx ! nat product_idx;
          message_content = show_opt (title p) @ [CHR 0x0A] @ show_opt (product_url p);
          current_bot =
            lc_active_bots cx ! nat (bot_idx mod int (length (lc_active_bots cx)))
      in case (if extract_item_id p \<noteq> [] then Some (extract_item_id p)
               else map_option (take 50) (title p)) of
           None \<Rightarrow> (Raised ''TypeError'', w)
         | Some cp \<Rightarrow>
             let w1 = persist_task_state
                        (w\<lparr>status := (status w)
                             \<lparr>current_product := Some cp,
                              current_account := user current_bot,
                              next_product_index := product_idx,
                              next_account_index := bot_idx\<rparr>\<rparr>);
                 res = (case int_of_str (lc_channel cx) of
                          None \<Rightarrow> Send_failed ''ValueError''
                        | Some _ \<Rightarrow> send_outcome ie);
                 w2 = apply_controls (during_send ie) w1;
                 w3 = w2\<lparr>effects := effects w2 @
                            [Attempt product_idx bot_idx current_bot message_content res]\<rparr>
             in (case res of
                  Sent \<Rightarrow>
                    (Continue,
                     persist_task_state
                       (w3\<lparr>status := (status w3)
                             \<lparr>sent_count := sent_count (status w3) + 1,
                              last_sent_at := Some (sent_at ie),
                              next_product_index := product_idx + 1,
                              next_account_index := bot_idx + 1\<rparr>\<rparr>))
                | Channel_not_found \<Rightarrow> (Continue, w3)
                | Send_failed e \<Rightarrow> (Continue, w3)
                | Send_cancelled \<Rightarrow> (Cancelled, w3)))"

function send_loop ::
  "loop_ctx \<Rightarrow> (nat \<Rightarrow> iter_env) \<Rightarrow> int \<Rightarrow> int \<Rightarrow> world \<Rightarrow> exit \<times> world" where
  "send_loop cx env product_idx bot_idx w =
     (let ie = env (nat product_idx);
          w0 = apply_controls (before_test ie) w
      in if stop_sender_event w0 then (Finished, w0)
         else if product_idx \<ge> int (length (lc_products cx)) then (Finished, w0)
         else
           case send_one cx ie product_idx bot_idx w0 of
             (Continue, w1) \<Rightarrow>
               if stop_sender_event w1 then (Finished, w1)
               else
                 let w2 = apply_controls (during_wait ie) w1
                 in if wait_cancelled ie then (Cancelled, w2)
                    else if stop_sender_event w2 then (Finished, w2)
                    else send_loop cx env (product_idx + 1) (bot_idx + 1) w2
           | (ex, w1) \<Rightarrow> (ex, w1))"
  by pat_completeness auto
termination
  by (relation "measure (\<lambda>(cx, env, product_idx, bot_idx, w).
         nat (int (length (lc_products cx)) - product_idx))") auto

declare send_loop.simps [simp del]

text \<open>The statements of the \<open>try\<close> block of \<open>auto_send_loop\<close>.\<close>

definition campaign_body ::
  "loop_args \<Rightarrow> bot_client list \<Rightarrow> run_env \<Rightarrow> world \<Rightarrow> exit \<times> world" where
  "campaign_body a bot_clients env w =
     (case get_shop_by_id (db w) (la_shop_id a) of
        None \<Rightarrow> (Finished, w\<lparr>status := (status w)\<lparr>error := Some ''shop not found''\<rparr>\<rparr>)
      | Some nm \<Rightarrow>
          let ps = select_products (db w) nm
          in if ps = []
             then (Finished, w\<lparr>status := (status w)\<lparr>error := Some ''shop has no products''\<rparr>\<rparr>)
             else
               let w1 = w\<lparr>status := (status w)\<lparr>total_products := int (length ps)\<rparr>\<rparr>
               in if next_product_index (status w1) \<ge> int (length ps)
                  then (Finished,
                        persist_task_state
                          (w1\<lparr>status := (status w1)
                                \<lparr>sent_count := int (length ps), current_product := None\<rparr>\<rparr>))
                  else
                    let active_bots = filter (online (la_account_ids a)) bot_clients
                    in if active_bots = []
                       then (Finished,
                             w1\<lparr>status := (status w1)\<lparr>error := Some ''no selected account online''\<rparr>\<rparr>)
                       else
                         send_loop
                           \<lparr>lc_products = ps, lc_active_bots = active_bots,
                            lc_channel = la_channel_id a\<rparr>
                           (iters env)
                           (next_product_index (status w1))
                           (next_account_index (status w1))
                           (w1\<lparr>status := (status w1)
                                 \<lparr>sent_count := next_product_index (status w1)\<rparr>\<rparr>))"

text \<open>The \<open>except\<close> and \<open>finally\<close> clauses.\<close>

definition finish :: "exit \<Rightarrow> world \<Rightarrow> world" where
  "finish ex w =
     (let w1 = (case ex of
                  Raised e \<Rightarrow> w\<lparr>status := (status w)\<lparr>error := Some e\<rparr>\<rparr>
                | _ \<Rightarrow> w);
          w2 = w1\<lparr>status := (status w1)\<lparr>is_running := False\<rparr>\<rparr>
      in if stop_sender_reason w2 = Some ''pause''
         then persist_task_state (w2\<lparr>status := (status w2)\<lparr>is_paused := True\<rparr>\<rparr>)
         else clear_task_state (w2\<lparr>status := (status w2)\<lparr>is_paused := False\<rparr>\<rparr>))"

definition auto_send_loop :: "loop_args \<Rightarrow> bot_client list \<Rightarrow> run_env \<Rightarrow> world \<Rightarrow> world" where
  "auto_send_loop a bot_clients env w =
     (let w1 = persist_task_state
                 (w\<lparr>status := (status w)
                      \<lparr>is_running := True, is_paused := False,
                       shop_id := Some (la_shop_id a),
                       channel_id := Some (la_channel_id a),
                       account_ids := la_account_ids a,
                       interval := Some (la_interval a),
                       started_at := Some (start_time env),
                       error := None,
                       next_product_index := max 0 (la_start_product_index a),
                       next_account_index := max 0 (la_start_account_index a)\<rparr>\<rparr>)
      in case campaign_body a bot_clients env (apply_controls (on_entry env) w1) of
           (ex, w2) \<Rightarrow> finish ex w2)"

subsection \<open>Traces and concrete scenarios\<close>

text \<open>The effects a step added to the trace.\<close>

definition new_effects :: "world \<Rightarrow> world \<Rightarrow> effect list" where
  "new_effects w w' = drop (length (effects w)) (effects w')"

fun attempts :: "effect list \<Rightarrow> (int \<times> int \<times> bot_client) list" where
  "attempts [] = []"
| "attempts (Attempt p b c m r # es) = (p, b, c) # attempts es"
| "attempts (Saved st # es) = attempts es"
| "attempts (Cleared # es) = attempts es"

fun cursor_trace :: "effect list \<Rightarrow> int list" where
  "cursor_trace [] = []"
| "cursor_trace (Saved st # es) = next_product_index st # cursor_trace es"
| "cursor_trace (Attempt p b c m r # es) = cursor_trace es"
| "cursor_trace (Cleared # es) = cursor_trace es"

text \<open>The products of the shop a campaign names, as the loop loads them.\<close>

definition campaign_products :: "database \<Rightarrow> int \<Rightarrow> product list" where
  "campaign_products d sid =
     (case get_shop_by_id d sid of None \<Rightarrow> [] | Some nm \<Rightarrow> select_products d nm)"

text \<open>A shop with two products, two accounts, and an idle process.\<close>

definition item :: "string \<Rightarrow> product" where
  "item t =
     \<lparr>shop_name = ''s'', product_url = Some ''u'', title = Some t, cnfans_url = None,
      item_id = None\<rparr>"

definition shop_db :: database where
  "shop_db = \<lparr>sender_task_state = None, shops = [(1, ''s'')], products = [item ''a'', item ''b'']\<rparr>"

definition idle_world :: world where
  "idle_world =
     \<lparr>status = initial_status, stop_sender_event = False, stop_sender_reason = None,
      db = shop_db, submitted = [], effects = []\<rparr>"

definition bot :: "int \<Rightarrow> bot_client" where
  "bot n = \<lparr>account_id = Some n, is_ready = True, is_closed = False, user = Some ''b''\<rparr>"

definition stored :: "bool \<Rightarrow> int option \<Rightarrow> int \<Rightarrow> persisted" where
  "stored running shop cursor =
     \<lparr>is_running = running, is_paused = \<not> running, shop_id = shop, channel_id = Some ''7'',
      account_ids = [1, 2], interval = Some 60, total_products = 2, sent_count = cursor,
      next_product_index = cursor, next_account_index = cursor, current_product = None,
      current_account = None, started_at = None, last_sent_at = None\<rparr>"

definition world_with :: "persisted \<Rightarrow> world" where
  "world_with st = idle_world\<lparr>db := shop_db\<lparr>sender_task_state := Some st\<rparr>\<rparr>"

text \<open>Effects that are neither a write of the store nor a send.\<close>

definition quiet :: "effect list \<Rightarrow> bool" where
  "quiet xs = (set xs \<subseteq> {Cleared})"

text \<open>
  The pairing the rotation is expected to produce from item index \<open>p\<close> and account
  index \<open>b\<close> on: each attempt carries the next two indices and the account at the
  account index modulo the size of the pool.
\<close>

fun round_robin :: "bot_client list \<Rightarrow> int \<Rightarrow> int \<Rightarrow> (int \<times> int \<times> bot_client) list \<Rightarrow> bool" where
  "round_robin pool p b [] = True"
| "round_robin pool p b (x # xs) =
     (x = (p, b, pool ! nat (b mod int (length pool))) \<and> round_robin pool (p + 1) (b + 1) xs)"

text \<open>
  The item cursor of the status, and what it means that a step from \<open>w\<close> to \<open>w'\<close>
  only moves it forward below \<open>L\<close>: the step appends to the trace, the cursors it
  writes to the store are in ascending order and lie between the cursor before and
  the cursor after, and the cursor after is at most \<open>L\<close>.
\<close>

definition item_cursor :: "world \<Rightarrow> int" where
  "item_cursor w = next_product_index (status w)"

definition advances :: "int \<Rightarrow> world \<Rightarrow> world \<Rightarrow> bool" where
  "advances L w w' =
     (\<exists>xs. effects w' = effects w @ xs \<and> sorted (cursor_trace xs)
          \<and> (\<forall>c \<in> set (cursor_trace xs). item_cursor w \<le> c \<and> c \<le> item_cursor w')
          \<and> item_cursor w \<le> item_cursor w' \<and> item_cursor w' \<le> L)"

text \<open>
  Surroundings in which every send succeeds and no control call arrives, surroundings
  in which the channel is not found and a pause arrives during the wait, and
  surroundings in which a pause arrives as soon as the coroutine runs.
\<close>

definition calm :: run_env where
  "calm = \<lparr>start_time = ''t'', on_entry = [],
           iters = (\<lambda>i. \<lparr>before_test = [], during_send = [], send_outcome = Sent,
                         sent_at = ''t'', during_wait = [], wait_cancelled = False\<rparr>)\<rparr>"

definition pause_after_failure :: run_env where
  "pause_after_failure =
     \<lparr>start_time = ''t'', on_entry = [],
      iters = (\<lambda>i. \<lparr>before_test = [], during_send = [], send_outcome = Channel_not_found,
                    sent_at = ''t'', during_wait = [Ctl_pause], wait_cancelled = False\<rparr>)\<rparr>"


text \<open>Campaign arguments for shop 1 starting at cursor \<open>k\<close>, and the pool of two accounts.\<close>

definition args :: "int \<Rightarrow> loop_args" where
  "args k = \<lparr>la_shop_id = 1, la_channel_id = ''7'', la_account_ids = [1, 2],
     la_interval = 60, la_start_product_index = k, la_start_account_index = k\<rparr>"

definition bots :: "bot_client list" where
  "bots = [bot 1, bot 2]"

text \<open>
  The process after a restart with a paused campaign at cursor \<open>k\<close> in the store, the
  same with a shop that has lost its products, the run of the coroutine that an
  accepted start or resume has submitted, and a resume followed by that run.
\<close>

definition restarted :: "int \<Rightarrow> world" where
  "restarted k = load_task_state (world_with (stored False (Some 1) k))"


definition run_submitted :: "run_env \<Rightarrow> reply \<times> world \<Rightarrow> world" where
  "run_submitted env r =
     (case r of
        (Success, w1) \<Rightarrow>
          if submitted w1 = [] then w1 else auto_send_loop (last (submitted w1)) bots env w1
      | (Failure e, w1) \<Rightarrow> w1)"

definition rerun :: "run_env \<Rightarrow> world \<Rightarrow> world" where
  "rerun env w = run_submitted env (resume_sending_task bots Loop_accepts w)"

text \<open>
  A fresh campaign over the two products whose first send does not find the channel and
  which is paused during the wait that follows.
\<close>

definition paused_run :: world where
  "paused_run =
     run_submitted pause_after_failure
       (start_sending_task 1 ''7'' [1, 2] 60 Loop_accepts 0 0 False idle_world)"

section \<open>The reactive reply path of \<open>backend/bot.py\<close>\<close>

subsection \<open>The cooldown table\<close>

text \<open>
  The module-level dictionary \<open>account_last_sent\<close>, from the key
  \<open>(int(account_id), str(channel_id))\<close> to the time of the last send. \<open>time.time()\<close> is
  passed in as \<open>now\<close>; times and intervals are real numbers. \<open>None\<close> is the
  \<open>ValueError\<close> of \<open>int\<close>.
\<close>

type_synonym cooldowns = "(int \<times> string) \<Rightarrow> real option"

definition is_account_on_cooldown ::
  "cooldowns \<Rightarrow> real \<Rightarrow> pyval \<Rightarrow> pyval \<Rightarrow> real \<Rightarrow> bool option" where
  "is_account_on_cooldown account_last_sent now acc chan iv =
     (case py_int acc of
        None \<Rightarrow> None
      | Some a \<Rightarrow>
          let last = (case account_last_sent (a, py_str chan) of None \<Rightarrow> 0 | Some t \<Rightarrow> t);
              time_passed = now - last
          in Some (time_passed < iv))"

definition set_account_cooldown ::
  "cooldowns \<Rightarrow> real \<Rightarrow> pyval \<Rightarrow> pyval \<Rightarrow> cooldowns option" where
  "set_account_cooldown account_last_sent now acc chan =
     (case py_int acc of
        None \<Rightarrow> None
      | Some a \<Rightarrow> Some (account_last_sent((a, py_str chan) \<mapsto> now)))"

definition cleanup_expired_cooldowns :: "cooldowns \<Rightarrow> real \<Rightarrow> cooldowns" where
  "cleanup_expired_cooldowns account_last_sent now =
     (\<lambda>key. case account_last_sent key of
              None \<Rightarrow> None
            | Some last_sent \<Rightarrow> if now - last_sent > 86400 then None else Some last_sent)"


subsection \<open>Scheduling a reply\<close>

text \<open>
  The website configuration bound to a channel, with the two rotation settings that
  \<open>schedule_reply\<close> reads.
\<close>

record website_config =
  wc_id :: int
  wc_rotation_enabled :: bool
  wc_rotation_interval :: real

text \<open>
  What goes into the channel: the reply with the reference to the message (text, if
  any, and files), or the plain text. The send trace pairs each call of
  \<open>target_channel.send\<close> with whether it returned.
\<close>

datatype channel_msg = Rich_reply "string option" "string list" | Plain string

text \<open>The log calls of \<open>schedule_reply\<close>, one constructor for each.\<close>

datatype log_entry =
    Log_not_bound
  | Log_no_senders_bound
  | Log_all_offline
  | Log_all_cooling
  | Log_selected int
  | Log_nothing_to_send
  | Log_reply_ok
  | Log_reply_failed
  | Log_send_ok
  | Log_no_channel_access
  | Log_send_exception
  | Log_serious_error

text \<open>
  What the surroundings decide for one call: the clock when cooldowns are cleaned and
  checked, the lookups in the database, the draw of \<open>random.choice\<close>, whether the
  chosen client sees the channel, whether typing and the delay pass, the image files
  collected, how the two sends end, and the clock when the cooldown is marked.
\<close>

record reply_env =
  re_now :: real
  re_website_config :: "website_config option"
  re_sender_ids :: "int list"
  re_user_website_settings :: "(bool \<times> real) option"
  re_choice :: nat
  re_channel_visible :: bool
  re_typing_ok :: bool
  re_files :: "string list"
  re_rich_send_ok :: bool
  re_plain_send_ok :: bool
  re_mark_time :: real

record bot_state =
  account_last_sent :: cooldowns
  sends :: "(channel_msg \<times> bool) list"
  logs :: "log_entry list"

definition say :: "log_entry \<Rightarrow> bot_state \<Rightarrow> bot_state" where
  "say e s = s\<lparr>logs := logs s @ [e]\<rparr>"

text \<open>
  Steps 1 to 4: from the configuration to the client that will send. The log line that
  names the chosen client reads \<open>target_client.user.name\<close>; for a client found without
  a user this raises, the outermost handler logs the error and nothing is sent.
\<close>

definition select_sender ::
  "reply_env \<Rightarrow> int option \<Rightarrow> bot_client list \<Rightarrow> int \<Rightarrow> bot_state
     \<Rightarrow> bot_client option \<times> bot_state" where
  "select_sender env self_user_id bot_clients chan s =
     (case re_website_config env of
        None \<Rightarrow> (None, say Log_not_bound s)
      | Some website_config \<Rightarrow>
          let db_sender_ids = re_sender_ids env
          in if db_sender_ids = [] then (None, say Log_no_senders_bound s)
             else
               let online_client_ids =
                     map account_id (filter (\<lambda>c. is_ready c \<and> \<not> is_closed c) bot_clients);
                   valid_senders = filter (\<lambda>uid. Some uid \<in> set online_client_ids) db_sender_ids
               in if valid_senders = [] then (None, say Log_all_offline s)
                  else
                    let (rotation_enabled, rotation_interval) =
                          (case (if truthy_id self_user_id \<and> wc_id website_config \<noteq> 0
                                 then re_user_website_settings env else None) of
                             None \<Rightarrow> (wc_rotation_enabled website_config,
                                       wc_rotation_interval website_config)
                           | Some u \<Rightarrow> u);
                        available_senders =
                          (if rotation_enabled
                           then filter (\<lambda>uid. is_account_on_cooldown (account_last_sent s)
                                          (re_now env) (PInt uid) (PInt chan) rotation_interval
                                        = Some False) valid_senders
                           else valid_senders)
                    in if available_senders = [] then (None, say Log_all_cooling s)
                       else
                         let selected_id =
                               available_senders ! (re_choice env mod length available_senders)
                         in case find (\<lambda>c. account_id c = Some selected_id) bot_clients of
                              None \<Rightarrow> (None, say (Log_selected selected_id) s)
                            | Some target_client \<Rightarrow>
                                if user target_client = None
                                then (None, say Log_serious_error s)
                                else (Some target_client,
                                      say (Log_selected selected_id) s))"

text \<open>
  \<open>set_account_cooldown\<close> under the guard
  \<open>hasattr(target_client, 'account_id') and target_client.account_id\<close>.
\<close>

definition mark_cooldown :: "reply_env \<Rightarrow> bot_client \<Rightarrow> int \<Rightarrow> bot_state \<Rightarrow> bot_state" where
  "mark_cooldown env target_client chan s =
     (if truthy_id (account_id target_client)
      then case set_account_cooldown (account_last_sent s) (re_mark_time env)
                  (PInt (case account_id target_client of Some a \<Rightarrow> a | None \<Rightarrow> 0)) (PInt chan) of
             Some t \<Rightarrow> s\<lparr>account_last_sent := t\<rparr>
           | None \<Rightarrow> s
      else s)"

text \<open>Step 5: the statements under \<open>if target_client\<close>.\<close>

definition send_reply ::
  "reply_env \<Rightarrow> bot_client \<Rightarrow> int \<Rightarrow> string \<Rightarrow> bot_state \<Rightarrow> bot_state" where
  "send_reply env target_client chan response_content s =
     (if \<not> re_channel_visible env then say Log_no_channel_access s
      else if \<not> re_typing_ok env then say Log_send_exception s
      else
        let files = re_files env
        in if response_content = [] \<and> files = [] then say Log_nothing_to_send s
           else
             let rich = Rich_reply (if response_content \<noteq> [] then Some response_content else None)
                          files
             in if re_rich_send_ok env
                then say Log_reply_ok
                       (mark_cooldown env target_client chan
                          (s\<lparr>sends := sends s @ [(rich, True)]\<rparr>))
                else
                  let s1 = say Log_reply_failed (s\<lparr>sends := sends s @ [(rich, False)]\<rparr>)
                  in if response_content \<noteq> [] \<and> \<not> re_plain_send_ok env
                     then say Log_send_exception
                            (s1\<lparr>sends := sends s1 @ [(Plain response_content, False)]\<rparr>)
                     else
                       let s2 = (if response_content \<noteq> []
                                 then s1\<lparr>sends := sends s1 @ [(Plain response_content, True)]\<rparr>
                                 else s1)
                       in say Log_send_ok (mark_cooldown env target_client chan s2))"

definition schedule_reply ::
  "reply_env \<Rightarrow> int option \<Rightarrow> bot_client list \<Rightarrow> int \<Rightarrow> string \<Rightarrow> bot_state \<Rightarrow> bot_state" where
  "schedule_reply env self_user_id bot_clients chan response_content s =
     (let s0 = s\<lparr>account_last_sent := cleanup_expired_cooldowns (account_last_sent s) (re_now env)\<rparr>
      in case select_sender env self_user_id bot_clients chan s0 of
           (None, s1) \<Rightarrow> s1
         | (Some target_client, s1) \<Rightarrow> send_reply env target_client chan response_content s1)"

subsection \<open>Concrete scenarios\<close>

text \<open>
  An empty cooldown table; a bound configuration with rotation every 180 seconds; a
  call with one configured sender, given files and given outcomes of the two sends;
  and a bot process that has sent nothing yet.
\<close>

definition no_marks :: cooldowns where
  "no_marks = (\<lambda>key. None)"

definition bound :: website_config where
  "bound = \<lparr>wc_id = 1, wc_rotation_enabled = True, wc_rotation_interval = 180\<rparr>"

definition reply_case :: "int \<Rightarrow> string list \<Rightarrow> bool \<Rightarrow> bool \<Rightarrow> reply_env" where
  "reply_case sender files rich_ok plain_ok =
     \<lparr>re_now = 1000, re_website_config = Some bound, re_sender_ids = [sender],
      re_user_website_settings = None, re_choice = 0, re_channel_visible = True,
      re_typing_ok = True, re_files = files, re_rich_send_ok = rich_ok,
      re_plain_send_ok = plain_ok, re_mark_time = 1005\<rparr>"

definition quiet_bot :: bot_state where
  "quiet_bot = \<lparr>account_last_sent = no_marks, sends = [], logs = []\<rparr>"


section \<open>Properties of the control surface\<close>

text \<open>
  C1. Whenever the status says running or paused, \<open>start_sending_task\<close> called with
  \<open>resume = False\<close> answers with the rejection "already active" and changes nothing: no
  global is touched and no second coroutine is submitted, whatever shop, channel,
  accounts, interval, event loop and start indices are passed.
\<close>

theorem start_rejected_while_active:
  "is_running (status w) \<or> is_paused (status w) \<Longrightarrow>
   start_sending_task shop chan accs iv loop start_product_index start_account_index False w
     = (Failure Already_active, w)"
  by (simp add: start_sending_task_def)

theorem start_rejected_while_active_witness:
  "is_paused (status (idle_world\<lparr>status := initial_status\<lparr>is_paused := True\<rparr>\<rparr>))
   \<and> start_sending_task 1 ''7'' [1, 2] 60 Loop_accepts 0 0 False
        (idle_world\<lparr>status := initial_status\<lparr>is_paused := True\<rparr>\<rparr>)
      = (Failure Already_active, idle_world\<lparr>status := initial_status\<lparr>is_paused := True\<rparr>\<rparr>)"
  using start_rejected_while_active
    [of "idle_world\<lparr>status := initial_status\<lparr>is_paused := True\<rparr>\<rparr>" 1 "''7''" "[1, 2]" 60
        Loop_accepts 0 0]
  by simp

text \<open>
  C2, as stated, fails: a stored record marked running that has no shop id is not
  loaded at all, so the status in memory is not reclassified to paused.
\<close>

theorem load_running_counterexample:
  "get_sender_task_state (db (world_with (stored True None 1))) = Some (stored True None 1)
   \<and> is_running (stored True None 1)
   \<and> \<not> is_paused (status (load_task_state (world_with (stored True None 1))))"
  by (simp add: load_task_state_def world_with_def stored_def get_sender_task_state_def
      truthy_id_def idle_world_def initial_status_def)

text \<open>
  C2, amended. For every stored record marked running that has a shop id other than 0
  and a non-empty channel id, \<open>load_task_state\<close> leaves a status with \<open>is_running\<close>
  false and \<open>is_paused\<close> true, and the store then holds the record in that paused form:
  the same record with the two flags changed.
\<close>

theorem load_running_becomes_paused:
  assumes "get_sender_task_state (db w) = Some st"
    and "is_running st"
    and "shop_id st = Some shop" and "shop \<noteq> 0"
    and "channel_id st = Some chan" and "chan \<noteq> []"
  shows "\<not> is_running (status (load_task_state w))
         \<and> is_paused (status (load_task_state w))
         \<and> get_sender_task_state (db (load_task_state w))
             = Some (st\<lparr>is_running := False, is_paused := True\<rparr>)
         \<and> snapshot (status (load_task_state w)) = st\<lparr>is_running := False, is_paused := True\<rparr>"
  using assms
  by (simp add: load_task_state_def truthy_id_def truthy_str_def persist_task_state_def
      save_sender_task_state_def get_sender_task_state_def snapshot_def initial_status_def)

theorem load_running_becomes_paused_witness:
  "\<not> is_running (status (load_task_state (world_with (stored True (Some 1) 1))))
   \<and> is_paused (status (load_task_state (world_with (stored True (Some 1) 1))))
   \<and> get_sender_task_state (db (load_task_state (world_with (stored True (Some 1) 1))))
       = Some ((stored True (Some 1) 1)\<lparr>is_running := False, is_paused := True\<rparr>)"
proof -
  have a: "get_sender_task_state (db (world_with (stored True (Some 1) 1)))
             = Some (stored True (Some 1) 1)"
    by (simp add: world_with_def get_sender_task_state_def)
  have b: "is_running (stored True (Some 1) 1)"
    and c: "shop_id (stored True (Some 1) 1) = Some 1"
    and d: "channel_id (stored True (Some 1) 1) = Some ''7''"
    by (simp_all add: stored_def)
  show ?thesis
    using load_running_becomes_paused [OF a b c _ d] by simp
qed

lemma has_online_bots_iff:
  "has_online_bots cs ids = (\<exists>c \<in> set cs. online ids c)"
  by (induction cs ids rule: has_online_bots.induct) (auto simp: online_def split: option.splits)

text \<open>
  C7. When no client in the pool is ready, not closed and carries one of the account
  ids of the stored campaign, \<open>resume_sending_task\<close> answers with a rejection and leaves
  the whole state as it was: the store is neither written nor cleared, and nothing is
  submitted.
\<close>

theorem resume_rejected_without_online_account:
  assumes "\<forall>st. get_sender_task_state (db w) = Some st \<longrightarrow>
             (\<forall>c \<in> set bot_clients. \<forall>a. account_id c = Some a \<longrightarrow>
                a \<in> set (account_ids st) \<longrightarrow> \<not> is_ready c \<or> is_closed c)"
  shows "\<exists>e. resume_sending_task bot_clients loop w = (Failure e, w)"
proof (cases "get_sender_task_state (db w)")
  case None
  then show ?thesis by (simp add: resume_sending_task_def)
next
  case (Some st)
  with assms have "\<not> has_online_bots bot_clients (account_ids st)"
    by (auto simp: has_online_bots_iff online_def split: option.splits)
  with Some show ?thesis
    by (auto simp: resume_sending_task_def split: option.splits)
qed

theorem resume_rejected_without_online_account_witness:
  "resume_sending_task [(bot 1)\<lparr>is_ready := False\<rparr>, (bot 2)\<lparr>is_closed := True\<rparr>, bot 3]
     Loop_accepts (world_with (stored False (Some 1) 1))
   = (Failure No_account_online, world_with (stored False (Some 1) 1))"
proof -
  have "\<forall>st. get_sender_task_state (db (world_with (stored False (Some 1) 1))) = Some st \<longrightarrow>
          (\<forall>c \<in> set [(bot 1)\<lparr>is_ready := False\<rparr>, (bot 2)\<lparr>is_closed := True\<rparr>, bot 3].
             \<forall>a. account_id c = Some a \<longrightarrow> a \<in> set (account_ids st) \<longrightarrow>
               \<not> is_ready c \<or> is_closed c)"
    by (simp add: world_with_def get_sender_task_state_def stored_def bot_def)
  from resume_rejected_without_online_account [OF this, of Loop_accepts]
  obtain e where e: "resume_sending_task
      [(bot 1)\<lparr>is_ready := False\<rparr>, (bot 2)\<lparr>is_closed := True\<rparr>, bot 3]
      Loop_accepts (world_with (stored False (Some 1) 1))
    = (Failure e, world_with (stored False (Some 1) 1))"
    by blast
  have "fst (resume_sending_task
      [(bot 1)\<lparr>is_ready := False\<rparr>, (bot 2)\<lparr>is_closed := True\<rparr>, bot 3]
      Loop_accepts (world_with (stored False (Some 1) 1))) = Failure No_account_online"
    by (simp add: resume_sending_task_def world_with_def get_sender_task_state_def stored_def
        bot_def online_def idle_world_def initial_status_def)
  with e show ?thesis by simp
qed

section \<open>Properties of the send loop\<close>

subsection \<open>What the primitive steps do to the state\<close>

lemma persist_fields [simp]:
  "status (persist_task_state w) = status w"
  "stop_sender_event (persist_task_state w) = stop_sender_event w"
  "stop_sender_reason (persist_task_state w) = stop_sender_reason w"
  "submitted (persist_task_state w) = submitted w"
  "effects (persist_task_state w) = effects w @ [Saved (snapshot (status w))]"
  "sender_task_state (db (persist_task_state w)) = Some (snapshot (status w))"
  "shops (db (persist_task_state w)) = shops (db w)"
  "products (db (persist_task_state w)) = products (db w)"
  by (simp_all add: persist_task_state_def save_sender_task_state_def)

lemma clear_fields [simp]:
  "status (clear_task_state w) = status w"
  "stop_sender_event (clear_task_state w) = stop_sender_event w"
  "stop_sender_reason (clear_task_state w) = stop_sender_reason w"
  "submitted (clear_task_state w) = submitted w"
  "effects (clear_task_state w) = effects w @ [Cleared]"
  "sender_task_state (db (clear_task_state w)) = None"
  "shops (db (clear_task_state w)) = shops (db w)"
  "products (db (clear_task_state w)) = products (db w)"
  by (simp_all add: clear_task_state_def clear_sender_task_state_def)

lemma db_reads_persist [simp]:
  "get_shop_by_id (db (persist_task_state w)) sid = get_shop_by_id (db w) sid"
  "select_products (db (persist_task_state w)) nm = select_products (db w) nm"
  by (simp_all add: get_shop_by_id_def select_products_def)

lemma campaign_products_persist [simp]:
  "campaign_products (db (persist_task_state w)) sid = campaign_products (db w) sid"
  by (simp add: campaign_products_def split: option.splits)

lemma quiet_traces [simp]: "quiet xs \<Longrightarrow> attempts xs = []" "quiet xs \<Longrightarrow> cursor_trace xs = []"
  by (induction xs) (auto simp: quiet_def)

lemma attempts_append [simp]: "attempts (xs @ ys) = attempts xs @ attempts ys"
  by (induction xs rule: attempts.induct) simp_all

lemma cursor_trace_append [simp]: "cursor_trace (xs @ ys) = cursor_trace xs @ cursor_trace ys"
  by (induction xs rule: cursor_trace.induct) simp_all

lemma apply_control_effects:
  "\<exists>xs. effects (apply_control c w) = effects w @ xs \<and> quiet xs"
  by (cases c)
     (auto simp: apply_control_def stop_sending_task_def pause_sending_task_def quiet_def Let_def)

lemma apply_control_cursor [simp]:
  "next_product_index (status (apply_control c w)) = next_product_index (status w)"
  "next_account_index (status (apply_control c w)) = next_account_index (status w)"
  "is_running (status (apply_control c w)) = is_running (status w)"
  "shops (db (apply_control c w)) = shops (db w)"
  "products (db (apply_control c w)) = products (db w)"
  by (cases c;
      auto simp: apply_control_def stop_sending_task_def pause_sending_task_def Let_def
        clear_task_state_def clear_sender_task_state_def)+

lemma apply_controls_effects:
  "\<exists>xs. effects (apply_controls cs w) = effects w @ xs \<and> quiet xs"
proof (induction cs arbitrary: w)
  case Nil
  show ?case by (simp add: apply_controls_def quiet_def)
next
  case (Cons c cs)
  obtain xs where xs: "effects (apply_control c w) = effects w @ xs" "quiet xs"
    using apply_control_effects by blast
  obtain ys where ys: "effects (apply_controls cs (apply_control c w))
      = effects (apply_control c w) @ ys" "quiet ys"
    using Cons.IH by blast
  have "effects (apply_controls (c # cs) w) = effects w @ (xs @ ys)"
    using xs ys by (simp add: apply_controls_def)
  moreover have "quiet (xs @ ys)" using xs ys by (simp add: quiet_def)
  ultimately show ?case by blast
qed

lemma apply_controls_cursor [simp]:
  "next_product_index (status (apply_controls cs w)) = next_product_index (status w)"
  "next_account_index (status (apply_controls cs w)) = next_account_index (status w)"
  "is_running (status (apply_controls cs w)) = is_running (status w)"
  "shops (db (apply_controls cs w)) = shops (db w)"
  "products (db (apply_controls cs w)) = products (db w)"
  by (induction cs arbitrary: w; simp add: apply_controls_def)+

lemma db_reads_controls [simp]:
  "get_shop_by_id (db (apply_controls cs w)) sid = get_shop_by_id (db w) sid"
  "select_products (db (apply_controls cs w)) nm = select_products (db w) nm"
  "campaign_products (db (apply_controls cs w)) sid = campaign_products (db w) sid"
  by (simp_all add: get_shop_by_id_def select_products_def campaign_products_def
      split: option.splits)


lemma apply_controls_effects_eq:
  "effects (apply_controls cs w) = effects w @ new_effects w (apply_controls cs w)"
  "quiet (new_effects w (apply_controls cs w))"
  using apply_controls_effects [of cs w] by (auto simp: new_effects_def)


subsection \<open>Round-robin pairing\<close>

lemma send_one_effects:
  assumes "send_one cx ie p b w = (ex, w')"
  shows "\<exists>xs. effects w' = effects w @ xs
           \<and> round_robin (lc_active_bots cx) p b (attempts xs)
           \<and> (ex = Continue \<longrightarrow>
                attempts xs = [(p, b, lc_active_bots cx ! nat (b mod int (length (lc_active_bots cx))))])"
  using assms
  by (auto simp: send_one_def Let_def apply_controls_effects_eq
      split: option.splits send_result.splits if_splits)

lemma send_loop_round_robin:
  "\<exists>xs. effects (snd (send_loop cx env p b w)) = effects w @ xs
        \<and> round_robin (lc_active_bots cx) p b (attempts xs)"
proof (induction cx env p b w rule: send_loop.induct)
  case (1 cx env p b w)
  define ie where "ie = env (nat p)"
  define w0 where "w0 = apply_controls (before_test ie) w"
  have e0: "effects w0 = effects w @ new_effects w w0" "quiet (new_effects w w0)"
    unfolding w0_def by (rule apply_controls_effects_eq)+
  show ?case
  proof (cases "stop_sender_event w0 \<or> p \<ge> int (length (lc_products cx))")
    case True
    then have "snd (send_loop cx env p b w) = w0"
      by (subst send_loop.simps) (auto simp: Let_def ie_def w0_def)
    with e0 show ?thesis by auto
  next
    case False
    obtain ex w1 where s1: "send_one cx ie p b w0 = (ex, w1)"
      by (cases "send_one cx ie p b w0") auto
    from send_one_effects [OF s1] obtain xs where
      xs: "effects w1 = effects w0 @ xs"
          "round_robin (lc_active_bots cx) p b (attempts xs)"
          "ex = Continue \<longrightarrow> attempts xs
             = [(p, b, lc_active_bots cx ! nat (b mod int (length (lc_active_bots cx))))]"
      by blast
    define w2 where "w2 = apply_controls (during_wait ie) w1"
    have e2: "effects w2 = effects w1 @ new_effects w1 w2" "quiet (new_effects w1 w2)"
      unfolding w2_def by (rule apply_controls_effects_eq)+
    show ?thesis
    proof (cases "ex = Continue \<and> \<not> stop_sender_event w1 \<and> \<not> wait_cancelled ie
                   \<and> \<not> stop_sender_event w2")
      case True
      then have eq: "send_loop cx env p b w = send_loop cx env (p + 1) (b + 1) w2"
        using False s1
        by (subst send_loop.simps) (auto simp: Let_def ie_def w0_def w2_def)
      from "1.IH" [OF ie_def w0_def _ _ s1 [symmetric] _ _ w2_def] True False
      obtain ys where ys: "effects (snd (send_loop cx env (p + 1) (b + 1) w2)) = effects w2 @ ys"
          "round_robin (lc_active_bots cx) (p + 1) (b + 1) (attempts ys)"
        by auto
      have "effects (snd (send_loop cx env p b w))
              = effects w @ (new_effects w w0 @ xs @ new_effects w1 w2 @ ys)"
        using eq ys e0 xs e2 by simp
      moreover have "round_robin (lc_active_bots cx) p b
                       (attempts (new_effects w w0 @ xs @ new_effects w1 w2 @ ys))"
        using e0 e2 xs ys True by simp
      ultimately show ?thesis by blast
    next
      case stop: False
      then have "snd (send_loop cx env p b w) = w1 \<or> snd (send_loop cx env p b w) = w2"
        using False s1 send_loop.simps [of cx env p b w]
        by (auto simp: Let_def ie_def w0_def w2_def split: exit.splits)
      then show ?thesis
      proof
        assume "snd (send_loop cx env p b w) = w1"
        then have "effects (snd (send_loop cx env p b w)) = effects w @ (new_effects w w0 @ xs)"
          using e0 xs by simp
        moreover have "round_robin (lc_active_bots cx) p b (attempts (new_effects w w0 @ xs))"
          using e0 xs by simp
        ultimately show ?thesis by blast
      next
        assume "snd (send_loop cx env p b w) = w2"
        then have "effects (snd (send_loop cx env p b w))
                     = effects w @ (new_effects w w0 @ xs @ new_effects w1 w2)"
          using e0 xs e2 by simp
        moreover have "round_robin (lc_active_bots cx) p b
                         (attempts (new_effects w w0 @ xs @ new_effects w1 w2))"
          using e0 xs e2 by simp
        ultimately show ?thesis by blast
      qed
    qed
  qed
qed

lemma round_robin_nth:
  "round_robin pool p b xs \<Longrightarrow> j < length xs \<Longrightarrow>
   xs ! j = (p + int j, b + int j, pool ! nat ((b + int j) mod int (length pool)))"
proof (induction xs arbitrary: p b j)
  case Nil
  then show ?case by simp
next
  case (Cons x xs)
  show ?case
  proof (cases j)
    case 0
    with Cons.prems show ?thesis by simp
  next
    case (Suc k)
    with Cons.prems have "xs ! k = (p + 1 + int k, b + 1 + int k,
        pool ! nat ((b + 1 + int k) mod int (length pool)))"
      using Cons.IH [of "p + 1" "b + 1" k] by simp
    with Suc show ?thesis by (simp add: algebra_simps)
  qed
qed

lemma campaign_body_round_robin:
  "\<exists>xs. effects (snd (campaign_body a bot_clients env w)) = effects w @ xs
        \<and> round_robin (filter (online (la_account_ids a)) bot_clients)
             (next_product_index (status w)) (next_account_index (status w)) (attempts xs)"
proof -
  let ?pool = "filter (online (la_account_ids a)) bot_clients"
  have loop: "\<And>cx w'. lc_active_bots cx = ?pool \<Longrightarrow> effects w' = effects w \<Longrightarrow>
      \<exists>xs. effects (snd (send_loop cx (iters env) p b w')) = effects w @ xs
          \<and> round_robin ?pool p b (attempts xs)" for p b
    using send_loop_round_robin by metis
  show ?thesis
    by (auto simp: campaign_body_def Let_def loop split: option.splits)
qed

lemma finish_effects:
  "\<exists>xs. effects (finish ex w) = effects w @ xs \<and> attempts xs = []"
  by (auto simp: finish_def Let_def split: exit.splits)

lemma auto_send_loop_round_robin:
  "\<exists>xs. effects (auto_send_loop a bot_clients env w) = effects w @ xs
        \<and> round_robin (filter (online (la_account_ids a)) bot_clients)
             (max 0 (la_start_product_index a)) (max 0 (la_start_account_index a)) (attempts xs)"
proof -
  define w1 where "w1 = persist_task_state
                 (w\<lparr>status := (status w)
                      \<lparr>is_running := True, is_paused := False,
                       shop_id := Some (la_shop_id a),
                       channel_id := Some (la_channel_id a),
                       account_ids := la_account_ids a,
                       interval := Some (la_interval a),
                       started_at := Some (start_time env),
                       error := None,
                       next_product_index := max 0 (la_start_product_index a),
                       next_account_index := max 0 (la_start_account_index a)\<rparr>\<rparr>)"
  define wc where "wc = apply_controls (on_entry env) w1"
  obtain ex w2 where b: "campaign_body a bot_clients env wc = (ex, w2)"
    by (cases "campaign_body a bot_clients env wc") auto
  have r: "auto_send_loop a bot_clients env w = finish ex w2"
    using b by (simp add: auto_send_loop_def w1_def wc_def Let_def)
  have e1: "effects w1 = effects w @ [Saved (snapshot (status w1))]"
    by (simp add: w1_def)
  have ec: "effects wc = effects w1 @ new_effects w1 wc" "quiet (new_effects w1 wc)"
    unfolding wc_def by (rule apply_controls_effects_eq)+
  from campaign_body_round_robin [of a bot_clients env wc] b
  obtain xs where xs: "effects w2 = effects wc @ xs"
    "round_robin (filter (online (la_account_ids a)) bot_clients)
       (max 0 (la_start_product_index a)) (max 0 (la_start_account_index a)) (attempts xs)"
    by (auto simp: w1_def wc_def)
  obtain ys where ys: "effects (finish ex w2) = effects w2 @ ys" "attempts ys = []"
    using finish_effects by blast
  have "effects (auto_send_loop a bot_clients env w)
          = effects w @ ([Saved (snapshot (status w1))] @ new_effects w1 wc @ xs @ ys)"
    using r e1 ec xs ys by simp
  moreover have "round_robin (filter (online (la_account_ids a)) bot_clients)
       (max 0 (la_start_product_index a)) (max 0 (la_start_account_index a))
       (attempts ([Saved (snapshot (status w1))] @ new_effects w1 wc @ xs @ ys))"
    using xs ys ec by simp
  ultimately show ?thesis by blast
qed


text \<open>
  C3. In every run of \<open>auto_send_loop\<close>, the \<open>j\<close>-th send attempt (counting from 0) is
  for the item at the starting item cursor plus \<open>j\<close>, carries the starting account
  cursor plus \<open>j\<close>, and is made by the account at position \<open>(k + j) mod N\<close> of the pool,
  where the pool is the list of ready, open clients among the selected accounts, \<open>N\<close>
  its size and \<open>k\<close> the starting account cursor. Both cursors therefore advance by
  exactly 1 from one attempt to the next, whatever the sends end in.
\<close>

theorem round_robin_pairing:
  assumes "j < length (attempts (new_effects w (auto_send_loop a bot_clients env w)))"
  shows "attempts (new_effects w (auto_send_loop a bot_clients env w)) ! j
         = (max 0 (la_start_product_index a) + int j,
            max 0 (la_start_account_index a) + int j,
            filter (online (la_account_ids a)) bot_clients
              ! ((nat (max 0 (la_start_account_index a)) + j)
                  mod length (filter (online (la_account_ids a)) bot_clients)))"
proof -
  let ?pool = "filter (online (la_account_ids a)) bot_clients"
  let ?k = "max 0 (la_start_account_index a)"
  obtain xs where xs: "effects (auto_send_loop a bot_clients env w) = effects w @ xs"
    "round_robin ?pool (max 0 (la_start_product_index a)) ?k (attempts xs)"
    using auto_send_loop_round_robin by blast
  have n: "new_effects w (auto_send_loop a bot_clients env w) = xs"
    using xs by (simp add: new_effects_def)
  have "nat ((?k + int j) mod int (length ?pool)) = (nat ?k + j) mod length ?pool"
    by (simp add: nat_mod_distrib nat_add_distrib)
  with round_robin_nth [OF xs(2), of j] assms n show ?thesis by simp
qed

theorem round_robin_pairing_witness:
  "1 < length (attempts (new_effects idle_world (auto_send_loop (args 0) bots calm idle_world)))
   \<and> attempts (new_effects idle_world (auto_send_loop (args 0) bots calm idle_world)) ! 1
       = (1, 1, bot 2)"
proof -
  have h: "1 < length (attempts (new_effects idle_world
             (auto_send_loop (args 0) bots calm idle_world)))"
    by code_simp
  have p: "filter (online [1, 2]) bots = [bot 1, bot 2]"
    by code_simp
  show ?thesis
    using h round_robin_pairing [OF h] by (simp add: p args_def)
qed


subsection \<open>The item cursor\<close>

lemma advances_trans:
  assumes "advances L w w1" and "advances L w1 w2"
  shows "advances L w w2"
proof -
  from assms(1) obtain xs where xs: "effects w1 = effects w @ xs" "sorted (cursor_trace xs)"
    "\<forall>c \<in> set (cursor_trace xs). item_cursor w \<le> c \<and> c \<le> item_cursor w1"
    "item_cursor w \<le> item_cursor w1"
    unfolding advances_def by blast
  from assms(2) obtain ys where ys: "effects w2 = effects w1 @ ys" "sorted (cursor_trace ys)"
    "\<forall>c \<in> set (cursor_trace ys). item_cursor w1 \<le> c \<and> c \<le> item_cursor w2"
    "item_cursor w1 \<le> item_cursor w2" "item_cursor w2 \<le> L"
    unfolding advances_def by blast
  have "effects w2 = effects w @ (xs @ ys)" using xs ys by simp
  moreover have "sorted (cursor_trace (xs @ ys))"
    using xs ys by (fastforce simp: sorted_append)
  moreover have "\<forall>c \<in> set (cursor_trace (xs @ ys)). item_cursor w \<le> c \<and> c \<le> item_cursor w2"
    using xs ys by fastforce
  moreover have "item_cursor w \<le> item_cursor w2" using xs ys by simp
  ultimately show ?thesis using ys(5) unfolding advances_def by blast
qed

lemma advances_quiet:
  "effects w' = effects w @ xs \<Longrightarrow> cursor_trace xs = [] \<Longrightarrow> item_cursor w \<le> item_cursor w' \<Longrightarrow>
   item_cursor w' \<le> L \<Longrightarrow> advances L w w'"
  unfolding advances_def by force

lemma advances_same:
  "effects w' = effects w \<Longrightarrow> item_cursor w' = item_cursor w \<Longrightarrow> item_cursor w \<le> L \<Longrightarrow> advances L w w'"
  unfolding advances_def by simp

lemma advances_persist:
  "item_cursor w \<le> L \<Longrightarrow> advances L w (persist_task_state w)"
  unfolding advances_def by (simp add: item_cursor_def snapshot_def)

lemma advances_controls:
  "item_cursor w \<le> L \<Longrightarrow> advances L w (apply_controls cs w)"
  by (rule advances_quiet [OF apply_controls_effects_eq(1)])
     (simp_all add: apply_controls_effects_eq item_cursor_def)

lemma send_one_advances:
  assumes "send_one cx ie p b w = (ex, w')" and "item_cursor w \<le> p" and "p + 1 \<le> L"
  shows "advances L w w' \<and> item_cursor w' \<le> p + 1"
  using assms
  by (auto simp: send_one_def Let_def apply_controls_effects_eq advances_def item_cursor_def
      snapshot_def
      split: option.splits send_result.splits if_splits)

lemma send_loop_advances:
  "item_cursor w \<le> p \<Longrightarrow> p \<le> int (length (lc_products cx)) \<Longrightarrow>
   advances (int (length (lc_products cx))) w (snd (send_loop cx env p b w))"
proof (induction cx env p b w rule: send_loop.induct)
  case (1 cx env p b w)
  let ?L = "int (length (lc_products cx))"
  define ie where "ie = env (nat p)"
  define w0 where "w0 = apply_controls (before_test ie) w"
  have a0: "advances ?L w w0" and c0: "item_cursor w0 \<le> p"
    using "1.prems" unfolding w0_def by (auto intro: advances_controls simp: item_cursor_def)
  show ?case
  proof (cases "stop_sender_event w0 \<or> p \<ge> ?L")
    case True
    then have "snd (send_loop cx env p b w) = w0"
      using send_loop.simps [of cx env p b w] by (auto simp: Let_def ie_def w0_def)
    with a0 show ?thesis by simp
  next
    case False
    obtain ex w1 where s1: "send_one cx ie p b w0 = (ex, w1)"
      by (cases "send_one cx ie p b w0") auto
    have a1: "advances ?L w0 w1" and c1: "item_cursor w1 \<le> p + 1"
      using send_one_advances [OF s1 c0, of ?L] False by auto
    define w2 where "w2 = apply_controls (during_wait ie) w1"
    have a2: "advances ?L w1 w2" and c2: "item_cursor w2 \<le> p + 1"
      using c1 False unfolding w2_def by (auto intro: advances_controls simp: item_cursor_def)
    show ?thesis
    proof (cases "ex = Continue \<and> \<not> stop_sender_event w1 \<and> \<not> wait_cancelled ie
                   \<and> \<not> stop_sender_event w2")
      case True
      then have eq: "send_loop cx env p b w = send_loop cx env (p + 1) (b + 1) w2"
        using False s1 send_loop.simps [of cx env p b w]
        by (auto simp: Let_def ie_def w0_def w2_def)
      have "advances ?L w2 (snd (send_loop cx env (p + 1) (b + 1) w2))"
        using "1.IH" [OF ie_def w0_def _ _ s1 [symmetric] _ _ w2_def] True False c2 by auto
      with a0 a1 a2 eq show ?thesis by (auto intro: advances_trans)
    next
      case stop: False
      then have "snd (send_loop cx env p b w) = w1 \<or> snd (send_loop cx env p b w) = w2"
        using False s1 send_loop.simps [of cx env p b w]
        by (auto simp: Let_def ie_def w0_def w2_def split: exit.splits)
      with a0 a1 a2 show ?thesis by (auto intro: advances_trans)
    qed
  qed
qed

lemma campaign_body_advances:
  assumes "item_cursor w \<le> int (length (campaign_products (db w) (la_shop_id a)))"
  shows "advances (int (length (campaign_products (db w) (la_shop_id a)))) w
           (snd (campaign_body a bot_clients env w))"
proof (cases "get_shop_by_id (db w) (la_shop_id a)")
  case None
  then show ?thesis
    using assms by (simp add: campaign_body_def advances_same item_cursor_def)
next
  case (Some nm)
  let ?ps = "select_products (db w) nm"
  have L: "campaign_products (db w) (la_shop_id a) = ?ps"
    using Some by (simp add: campaign_products_def)
  show ?thesis
  proof (cases "?ps = []")
    case True
    then show ?thesis
      using assms Some by (simp add: campaign_body_def advances_same item_cursor_def L)
  next
    case False
    define w1 where "w1 = w\<lparr>status := (status w)\<lparr>total_products := int (length ?ps)\<rparr>\<rparr>"
    have a1: "advances (int (length ?ps)) w w1"
      using assms by (simp add: w1_def advances_same item_cursor_def L)
    show ?thesis
    proof (cases "next_product_index (status w1) \<ge> int (length ?ps)")
      case True
      have "advances (int (length ?ps)) w
              (persist_task_state (w1\<lparr>status := (status w1)
                  \<lparr>sent_count := int (length ?ps), current_product := None\<rparr>\<rparr>))"
        using assms by (simp add: advances_def w1_def item_cursor_def snapshot_def L)
      with True False Some show ?thesis
        by (simp add: campaign_body_def Let_def L w1_def)
    next
      case low: False
      show ?thesis
      proof (cases "filter (online (la_account_ids a)) bot_clients = []")
        case True
        with low False Some assms show ?thesis
          by (simp add: campaign_body_def Let_def L w1_def advances_same item_cursor_def)
      next
        case pool: False
        define w2 where "w2 = w1\<lparr>status := (status w1)
                                 \<lparr>sent_count := next_product_index (status w1)\<rparr>\<rparr>"
        define cx where "cx = \<lparr>lc_products = ?ps,
              lc_active_bots = filter (online (la_account_ids a)) bot_clients,
              lc_channel = la_channel_id a\<rparr>"
        have a2: "advances (int (length ?ps)) w w2"
          using assms by (simp add: w1_def w2_def advances_same item_cursor_def L)
        have "advances (int (length (lc_products cx))) w2
                (snd (send_loop cx (iters env) (next_product_index (status w1))
                        (next_account_index (status w1)) w2))"
          by (rule send_loop_advances) (use low in \<open>simp_all add: item_cursor_def w2_def cx_def\<close>)
        then have "advances (int (length ?ps)) w
                (snd (send_loop cx (iters env) (next_product_index (status w1))
                        (next_account_index (status w1)) w2))"
          using a2 by (auto intro: advances_trans simp: cx_def)
        with pool low False Some show ?thesis
          by (simp add: campaign_body_def Let_def L w1_def w2_def cx_def)
      qed
    qed
  qed
qed

lemma finish_advances:
  "item_cursor w \<le> L \<Longrightarrow> advances L w (finish ex w)"
  by (auto simp: finish_def Let_def advances_def item_cursor_def snapshot_def split: exit.splits)


text \<open>
  C4, as stated, fails: a paused campaign stored at cursor 5 and resumed over a shop
  with two products runs with \<open>next_product_index = 5\<close> while \<open>total_products = 2\<close>.
\<close>

theorem cursor_exceeds_total_counterexample:
  "fst (resume_sending_task bots Loop_accepts (restarted 5)) = Success
   \<and> length (campaign_products (db (restarted 5)) 1) = 2
   \<and> next_product_index (status (rerun calm (restarted 5))) = 5
   \<and> total_products (status (rerun calm (restarted 5))) = 2"
  by code_simp

text \<open>
  C4, amended. For every campaign whose starting item cursor is at most the number of
  products loaded for it, the values of \<open>next_product_index\<close> written to the store over
  the run of \<open>auto_send_loop\<close> are in non-decreasing order, none of them exceeds that
  number, and neither does the cursor of the final status.
\<close>

theorem cursor_monotone_and_bounded:
  assumes "max 0 (la_start_product_index a)
             \<le> int (length (campaign_products (db w) (la_shop_id a)))"
  shows "sorted (cursor_trace (new_effects w (auto_send_loop a bot_clients env w)))
         \<and> (\<forall>c \<in> set (cursor_trace (new_effects w (auto_send_loop a bot_clients env w))).
               c \<le> int (length (campaign_products (db w) (la_shop_id a))))
         \<and> next_product_index (status (auto_send_loop a bot_clients env w))
               \<le> int (length (campaign_products (db w) (la_shop_id a)))"
proof -
  let ?L = "int (length (campaign_products (db w) (la_shop_id a)))"
  define w0 where "w0 = w\<lparr>status := (status w)
                      \<lparr>is_running := True, is_paused := False,
                       shop_id := Some (la_shop_id a),
                       channel_id := Some (la_channel_id a),
                       account_ids := la_account_ids a,
                       interval := Some (la_interval a),
                       started_at := Some (start_time env),
                       error := None,
                       next_product_index := max 0 (la_start_product_index a),
                       next_account_index := max 0 (la_start_account_index a)\<rparr>\<rparr>"
  define w1 where "w1 = persist_task_state w0"
  define wc where "wc = apply_controls (on_entry env) w1"
  obtain ex w2 where b: "campaign_body a bot_clients env wc = (ex, w2)"
    by (cases "campaign_body a bot_clients env wc") auto
  have r: "auto_send_loop a bot_clients env w = finish ex w2"
    using b by (simp add: auto_send_loop_def w1_def w0_def wc_def Let_def)
  have c0: "item_cursor w0 \<le> ?L" and e0: "effects w0 = effects w" and d0: "db w0 = db w"
    using assms by (simp_all add: w0_def item_cursor_def)
  have a1: "advances ?L w0 w1"
    unfolding w1_def using c0 by (rule advances_persist)
  have L1: "campaign_products (db wc) (la_shop_id a) = campaign_products (db w) (la_shop_id a)"
    by (simp add: wc_def w1_def d0)
  have c1: "item_cursor w1 \<le> ?L" using a1 unfolding advances_def by blast
  have ac: "advances ?L w1 wc"
    unfolding wc_def using c1 by (rule advances_controls)
  have cc: "item_cursor wc \<le> ?L" using ac unfolding advances_def by blast
  have a2: "advances ?L wc w2"
    using campaign_body_advances [of wc a bot_clients env] cc b by (simp add: L1)
  have c2: "item_cursor w2 \<le> ?L" using a2 unfolding advances_def by blast
  have a3: "advances ?L w2 (finish ex w2)" using c2 by (rule finish_advances)
  have "advances ?L w0 (finish ex w2)"
    using a1 ac a2 a3 by (blast intro: advances_trans)
  then obtain xs where xs: "effects (finish ex w2) = effects w0 @ xs" "sorted (cursor_trace xs)"
    "\<forall>c \<in> set (cursor_trace xs). c \<le> item_cursor (finish ex w2)" "item_cursor (finish ex w2) \<le> ?L"
    unfolding advances_def by blast
  have "new_effects w (auto_send_loop a bot_clients env w) = xs"
    using xs(1) e0 r by (simp add: new_effects_def)
  with xs r show ?thesis by (fastforce simp: item_cursor_def)
qed

theorem cursor_monotone_and_bounded_witness:
  "max 0 (la_start_product_index (args 0))
     \<le> int (length (campaign_products (db idle_world) (la_shop_id (args 0))))
   \<and> sorted (cursor_trace (new_effects idle_world (auto_send_loop (args 0) bots calm idle_world)))
   \<and> next_product_index (status (auto_send_loop (args 0) bots calm idle_world)) \<le> 2"
proof -
  have h: "max 0 (la_start_product_index (args 0))
             \<le> int (length (campaign_products (db idle_world) (la_shop_id (args 0))))"
    by code_simp
  have l: "int (length (campaign_products (db idle_world) (la_shop_id (args 0)))) = 2"
    by code_simp
  show ?thesis
    using h cursor_monotone_and_bounded [OF h, of bots calm] by (simp add: l)
qed


subsection \<open>A cursor at or past the end\<close>






subsection \<open>A failed send followed by a pause\<close>

text \<open>
  C6 fails on the code. The first item of a fresh campaign is not sent because the
  channel is not found, and the campaign is paused during the following wait. The
  store then holds the cursors of the failed item, 0 and 0, not the advanced ones, and
  the resumed campaign attempts item 0 again with the same account.
\<close>

theorem failed_item_retried_after_pause:
  "attempts (effects paused_run) = [(0, 0, bot 1)]
   \<and> fst (resume_sending_task bots Loop_accepts paused_run) = Success
   \<and> map_option is_paused (get_sender_task_state (db paused_run)) = Some True
   \<and> map_option next_product_index (get_sender_task_state (db paused_run)) = Some 0
   \<and> map_option next_account_index (get_sender_task_state (db paused_run)) = Some 0
   \<and> attempts (new_effects paused_run (rerun calm paused_run)) = [(0, 0, bot 1), (1, 1, bot 2)]"
  by code_simp

section \<open>Properties of the cooldown table\<close>

subsection \<open>Decimal text of an integer reads back as that integer\<close>

lemma digit_table:
  "list_all (\<lambda>d. is_digit (char_of_digit d) \<and> digit_of (char_of_digit d) = d) [0..<10]"
  by code_simp

lemma digit_roundtrip:
  "d < 10 \<Longrightarrow> is_digit (char_of_digit d) \<and> digit_of (char_of_digit d) = d"
  using digit_table unfolding list_all_iff by simp

lemma digit_is_plain:
  "is_digit c \<Longrightarrow> \<not> is_space c \<and> c \<noteq> CHR ''_'' \<and> c \<noteq> CHR ''-'' \<and> c \<noteq> CHR ''+''"
  by (auto simp: is_digit_def is_space_def)

lemma digits_value_snoc:
  "digits_value acc (xs @ [c]) = 10 * digits_value acc xs + digit_of c"
  by (induction xs arbitrary: acc) simp_all

lemma nat_digits_parse:
  "nat_digits n \<noteq> [] \<and> list_all is_digit (nat_digits n) \<and> digits_value 0 (nat_digits n) = n"
proof (induction n rule: nat_digits.induct)
  case (1 n)
  show ?case
  proof (cases "n < 10")
    case True
    then show ?thesis
      using digit_roundtrip [of n] by (subst (1 2 3) nat_digits.simps) simp
  next
    case False
    have m: "n mod 10 < 10" by simp
    from False "1.IH" digit_roundtrip [OF m] show ?thesis
      by (subst (1 2 3) nat_digits.simps) (simp add: digits_value_snoc)
  qed
qed

lemma digits_are_groups:
  "s \<noteq> [] \<Longrightarrow> list_all is_digit s \<Longrightarrow> digit_groups s"
  by (induction s rule: digit_groups.induct) (auto dest: digit_is_plain)

lemma digits_filter: "list_all is_digit s \<Longrightarrow> filter is_digit s = s"
  by (induction s) auto

lemma parse_nat_digits: "parse_nat (nat_digits n) = Some n"
  using nat_digits_parse [of n] by (simp add: parse_nat_def digits_are_groups digits_filter)

lemma strip_plain:
  "s \<noteq> [] \<Longrightarrow> \<not> is_space (hd s) \<Longrightarrow> \<not> is_space (last s) \<Longrightarrow> strip s = s"
proof -
  assume s: "s \<noteq> []" "\<not> is_space (hd s)" "\<not> is_space (last s)"
  then have "dropWhile is_space s = s"
    by (cases s) simp_all
  moreover have "dropWhile is_space (rev s) = rev s"
    using s by (cases "rev s") (simp_all add: hd_rev [symmetric] del: rev_is_Nil_conv)
  ultimately show ?thesis by (simp add: strip_def)
qed

lemma nat_digits_ends:
  "nat_digits n \<noteq> [] \<and> is_digit (hd (nat_digits n)) \<and> is_digit (last (nat_digits n))"
proof -
  have "nat_digits n \<noteq> []" and "list_all is_digit (nat_digits n)"
    using nat_digits_parse [of n] by simp_all
  then show ?thesis by (simp add: list_all_iff)
qed

lemma int_of_str_roundtrip: "int_of_str (str_of_int i) = Some i"
proof (cases "i < 0")
  case True
  let ?d = "nat_digits (nat (- i))"
  have "last (CHR ''-'' # ?d) = last ?d" using nat_digits_ends [of "nat (- i)"] by simp
  then have "strip (CHR ''-'' # ?d) = CHR ''-'' # ?d"
    using nat_digits_ends [of "nat (- i)"] digit_is_plain [of "last ?d"]
    by (intro strip_plain) (simp_all add: is_space_def)
  with True show ?thesis by (simp add: int_of_str_def str_of_int_def parse_nat_digits)
next
  case False
  let ?d = "nat_digits (nat i)"
  obtain c r where cr: "?d = c # r"
    using nat_digits_ends [of "nat i"] by (cases ?d) auto
  have c: "is_digit c" using nat_digits_ends [of "nat i"] cr by simp
  have "strip ?d = ?d"
    using nat_digits_ends [of "nat i"] digit_is_plain [of "hd ?d"] digit_is_plain [of "last ?d"]
    by (intro strip_plain) simp_all
  moreover have "parse_nat (c # r) = Some (nat i)"
    using parse_nat_digits [of "nat i"] cr by simp
  ultimately show ?thesis
    using False cr digit_is_plain [OF c] by (simp add: int_of_str_def str_of_int_def)
qed

lemma py_conversions:
  "acc = PInt a \<or> acc = PStr (str_of_int a) \<Longrightarrow> py_int acc = Some a"
  "chan = PInt c \<or> chan = PStr (str_of_int c) \<Longrightarrow> py_str chan = str_of_int c"
  by (auto simp: py_int_def py_str_def int_of_str_roundtrip)


subsection \<open>The admission contract\<close>

text \<open>
  C5, as stated, fails: with no entry in the table, a clock reading of 100 and an
  interval of 180 the account counts as cooling down, because a missing entry is read
  as a send at time 0.
\<close>

theorem cooldown_unmarked_counterexample:
  "no_marks (1, ''7'') = None
   \<and> is_account_on_cooldown no_marks 100 (PInt 1) (PStr ''7'') 180 = Some True"
  by (simp add: no_marks_def is_account_on_cooldown_def py_int_def py_str_def)

text \<open>
  C5, amended. For every account id that \<open>int\<close> accepts and every channel id,
  \<open>is_account_on_cooldown\<close> answers true exactly when \<open>now - last < interval\<close>, where
  \<open>last\<close> is the stored mark, or 0 when there is none. So with no entry it is false
  whenever \<open>interval \<le> now\<close>; after \<open>set_account_cooldown\<close> at time \<open>t\<close> it is true
  exactly when \<open>now - t < interval\<close>: true at time \<open>t\<close> itself for a positive
  interval, and false once \<open>interval\<close> seconds have passed.
\<close>

theorem cooldown_contract:
  assumes "py_int acc = Some a"
  shows "is_account_on_cooldown tbl now acc chan iv
           = Some (now - (case tbl (a, py_str chan) of None \<Rightarrow> 0 | Some t0 \<Rightarrow> t0) < iv)
         \<and> (tbl (a, py_str chan) = None \<and> iv \<le> now \<longrightarrow>
               is_account_on_cooldown tbl now acc chan iv = Some False)
         \<and> (\<exists>tbl'. set_account_cooldown tbl t acc chan = Some tbl'
               \<and> is_account_on_cooldown tbl' now acc chan iv = Some (now - t < iv)
               \<and> (0 < iv \<longrightarrow> is_account_on_cooldown tbl' t acc chan iv = Some True)
               \<and> (t + iv \<le> now \<longrightarrow> is_account_on_cooldown tbl' now acc chan iv = Some False))"
  using assms
  by (auto simp: is_account_on_cooldown_def set_account_cooldown_def Let_def)

theorem cooldown_contract_witness:
  "is_account_on_cooldown no_marks 1000 (PInt 1) (PStr ''7'') 180 = Some False
   \<and> (\<exists>tbl'. set_account_cooldown no_marks 1000 (PInt 1) (PStr ''7'') = Some tbl'
         \<and> is_account_on_cooldown tbl' 1000 (PInt 1) (PStr ''7'') 180 = Some True
         \<and> is_account_on_cooldown tbl' 1180 (PInt 1) (PStr ''7'') 180 = Some False)"
proof -
  have h: "py_int (PInt 1) = Some 1" by (simp add: py_int_def)
  have n: "no_marks (1, py_str (PStr ''7'')) = None" by (simp add: no_marks_def)
  from cooldown_contract [OF h, of no_marks 1000 "PStr ''7''" 180 1000] n
  have "is_account_on_cooldown no_marks 1000 (PInt 1) (PStr ''7'') 180 = Some False"
    by simp
  moreover have "\<exists>tbl'. set_account_cooldown no_marks 1000 (PInt 1) (PStr ''7'') = Some tbl'
         \<and> is_account_on_cooldown tbl' 1000 (PInt 1) (PStr ''7'') 180 = Some True
         \<and> is_account_on_cooldown tbl' 1180 (PInt 1) (PStr ''7'') 180 = Some False"
  proof -
    from cooldown_contract [OF h, of no_marks 1180 "PStr ''7''" 180 1000]
    obtain tbl' where t: "set_account_cooldown no_marks 1000 (PInt 1) (PStr ''7'') = Some tbl'"
      and u: "(0::real) < 180 \<longrightarrow>
                is_account_on_cooldown tbl' 1000 (PInt 1) (PStr ''7'') 180 = Some True"
      and v: "(1000::real) + 180 \<le> 1180 \<longrightarrow>
                is_account_on_cooldown tbl' 1180 (PInt 1) (PStr ''7'') 180 = Some False"
      by blast
    from u v have "is_account_on_cooldown tbl' 1000 (PInt 1) (PStr ''7'') 180 = Some True"
      and "is_account_on_cooldown tbl' 1180 (PInt 1) (PStr ''7'') 180 = Some False"
      by simp_all
    with t show ?thesis by blast
  qed
  ultimately show ?thesis by blast
qed


text \<open>
  C10. An account id given as the number or as its decimal text, and a channel id
  given as the number or as its decimal text, name the same entry: a mark set through
  one form is the entry at \<open>(a, str(c))\<close>, and a check through any other form reads
  that mark.
\<close>

theorem cooldown_key_normalised:
  assumes "acc1 = PInt a \<or> acc1 = PStr (str_of_int a)"
    and "acc2 = PInt a \<or> acc2 = PStr (str_of_int a)"
    and "chan1 = PInt c \<or> chan1 = PStr (str_of_int c)"
    and "chan2 = PInt c \<or> chan2 = PStr (str_of_int c)"
  shows "set_account_cooldown tbl t acc1 chan1 = Some (tbl((a, str_of_int c) \<mapsto> t))
         \<and> is_account_on_cooldown (tbl((a, str_of_int c) \<mapsto> t)) now acc2 chan2 iv
             = Some (now - t < iv)"
  using py_conversions(1) [OF assms(1)] py_conversions(1) [OF assms(2)]
    py_conversions(2) [OF assms(3)] py_conversions(2) [OF assms(4)]
  by (simp add: set_account_cooldown_def is_account_on_cooldown_def)

theorem cooldown_key_normalised_witness:
  "set_account_cooldown no_marks 1000 (PStr ''5'') (PInt 123)
     = Some (no_marks((5, ''123'') \<mapsto> 1000))
   \<and> is_account_on_cooldown (no_marks((5, ''123'') \<mapsto> 1000)) 1060 (PInt 5) (PStr ''123'') 180
       = Some True"
proof -
  have a: "str_of_int 5 = ''5''" and c: "str_of_int 123 = ''123''"
    by code_simp+
  have 1: "PStr ''5'' = PInt 5 \<or> PStr ''5'' = PStr (str_of_int 5)" by (simp add: a)
  have 2: "PInt 5 = PInt 5 \<or> PInt 5 = PStr (str_of_int 5)" by simp
  have 3: "PInt 123 = PInt 123 \<or> PInt 123 = PStr (str_of_int 123)" by simp
  have 4: "PStr ''123'' = PInt 123 \<or> PStr ''123'' = PStr (str_of_int 123)" by (simp add: c)
  from cooldown_key_normalised [OF 1 2 3 4, of no_marks 1000 1060 180]
  show ?thesis by (simp add: c)
qed


section \<open>Properties of the reply path\<close>

lemma say_fields [simp]:
  "sends (say e s) = sends s" "account_last_sent (say e s) = account_last_sent s"
  "logs (say e s) = logs s @ [e]"
  by (simp_all add: say_def)

lemma mark_cooldown_fields [simp]:
  "sends (mark_cooldown env c chan s) = sends s"
  "logs (mark_cooldown env c chan s) = logs s"
  by (simp_all add: mark_cooldown_def set_account_cooldown_def py_int_def)

lemma mark_cooldown_table:
  "account_id c = Some a \<Longrightarrow> a \<noteq> 0 \<Longrightarrow>
   account_last_sent (mark_cooldown env c chan s)
     = (account_last_sent s)((a, str_of_int chan) \<mapsto> re_mark_time env)"
  by (simp add: mark_cooldown_def set_account_cooldown_def py_int_def py_str_def truthy_id_def)


lemma select_sender_fields:
  "select_sender env self_user_id bot_clients chan s = (sel, s1) \<Longrightarrow>
   sends s1 = sends s \<and> account_last_sent s1 = account_last_sent s
   \<and> (\<forall>c. sel = Some c \<longrightarrow> user c \<noteq> None)"
  by (auto simp: select_sender_def Let_def split: option.splits if_splits prod.splits)

text \<open>
  C8, as stated, fails twice. A reply that consists of files only, whose send with the
  reference fails, is followed by no plain send at all; the cooldown is marked and
  success is logged all the same, so this total failure is not only logged. And a
  reply sent successfully by the account with id 0 leaves no cooldown mark.
\<close>

theorem reply_fallback_counterexample:
  "sends (schedule_reply (reply_case 1 [''f''] False True) (Some 1) [bot 1] 7 [] quiet_bot)
     = [(Rich_reply None [''f''], False)]
   \<and> account_last_sent
        (schedule_reply (reply_case 1 [''f''] False True) (Some 1) [bot 1] 7 [] quiet_bot)
        (1, ''7'') = Some 1005
   \<and> logs (schedule_reply (reply_case 1 [''f''] False True) (Some 1) [bot 1] 7 [] quiet_bot)
     = [Log_selected 1, Log_reply_failed, Log_send_ok]
   \<and> sends (schedule_reply (reply_case 0 [] True True) (Some 1) [bot 0] 7 ''x'' quiet_bot)
     = [(Rich_reply (Some ''x'') [], True)]
   \<and> account_last_sent
        (schedule_reply (reply_case 0 [] True True) (Some 1) [bot 0] 7 ''x'' quiet_bot)
        (0, ''7'') = None"
proof -
  have k: "str_of_int 7 = ''7''" by code_simp
  show ?thesis
    by (simp add: schedule_reply_def select_sender_def send_reply_def mark_cooldown_def say_def
        reply_case_def quiet_bot_def bound_def bot_def no_marks_def truthy_id_def
        cleanup_expired_cooldowns_def is_account_on_cooldown_def set_account_cooldown_def
        py_int_def py_str_def Let_def k)
qed

text \<open>
  C8, amended. Whatever happens in \<open>schedule_reply\<close>, the only messages put into the
  channel are the reply with the reference and its plain text: no error message is
  ever sent. When no sender is selected, the selected client does not see the channel,
  typing or the delay fails, or there is neither text nor files, nothing is sent and no
  cooldown is marked. Otherwise, for a selected sender with a non-zero account id: if
  the send with the reference succeeds, it is the only send and the cooldown of that
  account for the channel is marked; if it fails and the reply has text, the text is
  sent plainly and the cooldown is marked when that succeeds; when that fails too, no
  cooldown is marked and the failure is only logged; if it fails and the reply has no
  text, no further send is made. A client without a user is never selected.
\<close>

theorem reply_send_policy:
  assumes "s0 = s\<lparr>account_last_sent :=
                   cleanup_expired_cooldowns (account_last_sent s) (re_now env)\<rparr>"
    and "select_sender env self_user_id bot_clients chan s0 = (sel, s1)"
    and "rich = Rich_reply (if response_content \<noteq> [] then Some response_content else None)
                  (re_files env)"
    and "s' = schedule_reply env self_user_id bot_clients chan response_content s"
  shows "(\<exists>xs. sends s' = sends s @ xs
             \<and> set xs \<subseteq> {(rich, True), (rich, False),
                          (Plain response_content, True), (Plain response_content, False)})
         \<and> (sel = None \<or> \<not> re_channel_visible env \<or> \<not> re_typing_ok env
              \<or> (response_content = [] \<and> re_files env = []) \<longrightarrow>
              sends s' = sends s \<and> account_last_sent s' = account_last_sent s0)
         \<and> (\<forall>c a. sel = Some c \<and> account_id c = Some a \<and> a \<noteq> 0
                \<and> re_channel_visible env \<and> re_typing_ok env
                \<and> (response_content \<noteq> [] \<or> re_files env \<noteq> []) \<longrightarrow>
              user c \<noteq> None
              \<and> (re_rich_send_ok env \<longrightarrow>
                    sends s' = sends s @ [(rich, True)]
                    \<and> account_last_sent s'
                        = (account_last_sent s0)((a, str_of_int chan) \<mapsto> re_mark_time env))
              \<and> (\<not> re_rich_send_ok env \<and> response_content \<noteq> [] \<and> re_plain_send_ok env \<longrightarrow>
                    sends s' = sends s @ [(rich, False), (Plain response_content, True)]
                    \<and> account_last_sent s'
                        = (account_last_sent s0)((a, str_of_int chan) \<mapsto> re_mark_time env))
              \<and> (\<not> re_rich_send_ok env \<and> response_content \<noteq> [] \<and> \<not> re_plain_send_ok env \<longrightarrow>
                    sends s' = sends s @ [(rich, False), (Plain response_content, False)]
                    \<and> account_last_sent s' = account_last_sent s0
                    \<and> logs s' = logs s1 @ [Log_reply_failed, Log_send_exception])
              \<and> (\<not> re_rich_send_ok env \<and> response_content = [] \<longrightarrow>
                    sends s' = sends s @ [(rich, False)]))"
proof -
  have f: "sends s1 = sends s" "account_last_sent s1 = account_last_sent s0"
    "\<forall>c. sel = Some c \<longrightarrow> user c \<noteq> None"
    using select_sender_fields [OF assms(2)] by (simp_all add: assms(1))
  have run: "s' = (case sel of None \<Rightarrow> s1
                   | Some c \<Rightarrow> send_reply env c chan response_content s1)"
    using assms(2) by (simp add: assms(4) schedule_reply_def Let_def assms(1) [symmetric])
  have 1: "\<exists>xs. sends s' = sends s @ xs
             \<and> set xs \<subseteq> {(rich, True), (rich, False),
                          (Plain response_content, True), (Plain response_content, False)}"
    using f(1) by (cases sel) (auto simp: run send_reply_def Let_def assms(3))
  have 2: "sel = None \<or> \<not> re_channel_visible env \<or> \<not> re_typing_ok env
              \<or> (response_content = [] \<and> re_files env = []) \<longrightarrow>
              sends s' = sends s \<and> account_last_sent s' = account_last_sent s0"
    using f(1,2) by (cases sel) (auto simp: run send_reply_def Let_def)
  have 3: "sel = Some c \<and> account_id c = Some a \<and> a \<noteq> 0
                \<and> re_channel_visible env \<and> re_typing_ok env
                \<and> (response_content \<noteq> [] \<or> re_files env \<noteq> []) \<longrightarrow>
              user c \<noteq> None
              \<and> (re_rich_send_ok env \<longrightarrow>
                    sends s' = sends s @ [(rich, True)]
                    \<and> account_last_sent s'
                        = (account_last_sent s0)((a, str_of_int chan) \<mapsto> re_mark_time env))
              \<and> (\<not> re_rich_send_ok env \<and> response_content \<noteq> [] \<and> re_plain_send_ok env \<longrightarrow>
                    sends s' = sends s @ [(rich, False), (Plain response_content, True)]
                    \<and> account_last_sent s'
                        = (account_last_sent s0)((a, str_of_int chan) \<mapsto> re_mark_time env))
              \<and> (\<not> re_rich_send_ok env \<and> response_content \<noteq> [] \<and> \<not> re_plain_send_ok env \<longrightarrow>
                    sends s' = sends s @ [(rich, False), (Plain response_content, False)]
                    \<and> account_last_sent s' = account_last_sent s0
                    \<and> logs s' = logs s1 @ [Log_reply_failed, Log_send_exception])
              \<and> (\<not> re_rich_send_ok env \<and> response_content = [] \<longrightarrow>
                    sends s' = sends s @ [(rich, False)])" for c a
    using f by (auto simp: run send_reply_def Let_def assms(3) mark_cooldown_table)
  from 1 2 3 show ?thesis by blast
qed

theorem reply_send_policy_witness:
  "sends (schedule_reply (reply_case 1 [] False True) (Some 1) [bot 1] 7 ''x'' quiet_bot)
     = [(Rich_reply (Some ''x'') [], False), (Plain ''x'', True)]
   \<and> account_last_sent
        (schedule_reply (reply_case 1 [] False True) (Some 1) [bot 1] 7 ''x'' quiet_bot)
        (1, ''7'') = Some 1005"
proof -
  let ?env = "reply_case 1 [] False True"
  let ?s0 = "quiet_bot\<lparr>account_last_sent :=
                   cleanup_expired_cooldowns (account_last_sent quiet_bot) (re_now ?env)\<rparr>"
  let ?s1 = "quiet_bot\<lparr>logs := [Log_selected 1]\<rparr>"
  have sel: "select_sender ?env (Some 1) [bot 1] 7 ?s0 = (Some (bot 1), ?s1)"
    by (simp add: select_sender_def say_def reply_case_def quiet_bot_def bound_def bot_def
        no_marks_def truthy_id_def cleanup_expired_cooldowns_def is_account_on_cooldown_def
        py_int_def py_str_def Let_def)
  have v: "re_channel_visible ?env" and ty: "re_typing_ok ?env"
    and r: "\<not> re_rich_send_ok ?env" and p: "re_plain_send_ok ?env"
    and m: "re_mark_time ?env = 1005" and f: "re_files ?env = []"
    by (simp_all add: reply_case_def)
  have a: "account_id (bot 1) = Some 1" by (simp add: bot_def)
  have k: "str_of_int 7 = ''7''" by code_simp
  from reply_send_policy [OF refl sel refl refl, of "''x''"]
  have "Some (bot 1) = Some (bot 1) \<and> account_id (bot 1) = Some 1 \<and> (1::int) \<noteq> 0
          \<and> re_channel_visible ?env \<and> re_typing_ok ?env
          \<and> (''x'' \<noteq> [] \<or> re_files ?env \<noteq> []) \<longrightarrow>
        (\<not> re_rich_send_ok ?env \<and> ''x'' \<noteq> [] \<and> re_plain_send_ok ?env \<longrightarrow>
           sends (schedule_reply ?env (Some 1) [bot 1] 7 ''x'' quiet_bot)
             = sends quiet_bot @ [(Rich_reply (if ''x'' \<noteq> [] then Some ''x'' else None)
                                     (re_files ?env), False), (Plain ''x'', True)]
           \<and> account_last_sent (schedule_reply ?env (Some 1) [bot 1] 7 ''x'' quiet_bot)
             = (account_last_sent ?s0)((1, str_of_int 7) \<mapsto> re_mark_time ?env))"
    by blast
  with v ty r p a show ?thesis by (simp add: m f k quiet_bot_def)
qed


end
